theory Spec2Isabelle
  imports Complex_Main
begin

section \<open>Per-resource daemons of kopf: the supervisor and the runner\<close>

text \<open>
  A shallow embedding of \<^verbatim>\<open>kopf/reactor/daemons.py\<close>. Monotonic timestamps and
  durations (Python floats) are idealised as real numbers. Effects are explicit: the
  stopper, the task handle, the per-daemon logger and the host's warning channel are
  fields of the state that every operation returns updated.
\<close>

subsection \<open>Errors\<close>

datatype error =
    RuntimeError string
  | ZeroDivisionError
  | CancelledError
  | PatchingError

subsection \<open>The stopper signal\<close>

datatype DaemonStoppingReason =
    DONE
  | RESOURCE_DELETED
  | OPERATOR_EXITING
  | DAEMON_SIGNALLED
  | DAEMON_CANCELLED
  | DAEMON_ABANDONED

record DaemonStopper =
  reasons :: "DaemonStoppingReason set"
  when_set :: "real option"   \<comment> \<open>the field \<^verbatim>\<open>when\<close>\<close>

text \<open>
  Modelled from the spec: the class \<^verbatim>\<open>primitives.DaemonStopper\<close> is not among the
  sources. A stopper holds a set of reasons and the timestamp of the first set;
  \<^verbatim>\<open>set(reason)\<close> is idempotent per reason and records \<^verbatim>\<open>when\<close> only if no reason was
  set before; \<^verbatim>\<open>is_set()\<close> holds iff some reason is set; \<^verbatim>\<open>is_set(reason)\<close> is
  membership. The clock reading taken inside \<^verbatim>\<open>set\<close> is the argument \<open>t\<close>.
\<close>

definition new_stopper :: DaemonStopper where
  "new_stopper = \<lparr>reasons = {}, when_set = None\<rparr>"

definition stopper_set :: "DaemonStoppingReason \<Rightarrow> real \<Rightarrow> DaemonStopper \<Rightarrow> DaemonStopper" where
  "stopper_set r t s =
     s\<lparr>when_set := (case when_set s of None \<Rightarrow> Some t | Some w \<Rightarrow> Some w),
       reasons := insert r (reasons s)\<rparr>"

definition is_set :: "DaemonStopper \<Rightarrow> bool" where
  "is_set s = (reasons s \<noteq> {})"

definition is_set_reason :: "DaemonStoppingReason \<Rightarrow> DaemonStopper \<Rightarrow> bool" where
  "is_set_reason r s = (r \<in> reasons s)"

subsection \<open>Handlers, tasks and daemon records\<close>

type_synonym DaemonId = string

text \<open>
  Modelled from the spec: the handler classes of \<^verbatim>\<open>kopf.structs.handlers\<close> are not among
  the sources. A spawning handler is a daemon handler or a timer handler, with the fields
  the code reads; \<open>OtherSpawningHandler\<close> stands for any object that is neither, which the
  \<^verbatim>\<open>else: raise RuntimeError\<close> branches receive.
\<close>

datatype ResourceSpawningHandler =
    ResourceDaemonHandler
      DaemonId          \<comment> \<open>id\<close>
      "real option"     \<comment> \<open>initial_delay\<close>
      "real option"     \<comment> \<open>cancellation_backoff\<close>
      "real option"     \<comment> \<open>cancellation_timeout\<close>
      "real option"     \<comment> \<open>cancellation_polling\<close>
  | ResourceTimerHandler
      DaemonId          \<comment> \<open>id\<close>
      "real option"     \<comment> \<open>initial_delay\<close>
      "real option"     \<comment> \<open>interval\<close>
      "real option"     \<comment> \<open>idle\<close>
      bool              \<comment> \<open>sharp\<close>
  | OtherSpawningHandler
      DaemonId          \<comment> \<open>id\<close>

fun handler_id :: "ResourceSpawningHandler \<Rightarrow> DaemonId" where
  "handler_id (ResourceDaemonHandler i _ _ _ _) = i"
| "handler_id (ResourceTimerHandler i _ _ _ _) = i"
| "handler_id (OtherSpawningHandler i) = i"

text \<open>
  The handle of the runner task, as the supervisor uses it: \<^verbatim>\<open>task.done()\<close> reads
  \<open>finished\<close>, every \<^verbatim>\<open>task.cancel()\<close> is counted in \<open>cancel_calls\<close>, and every
  \<^verbatim>\<open>asyncio.wait([task], timeout=t)\<close> appends \<open>t\<close> to \<open>awaited\<close>.
\<close>

record Task =
  finished :: bool
  cancel_calls :: nat
  awaited :: "real list"

text \<open>The handle \<^verbatim>\<open>asyncio.create_task\<close> returns: not finished, never cancelled or awaited.\<close>

definition fresh_task :: Task where
  "fresh_task = \<lparr>finished = False, cancel_calls = 0, awaited = []\<rparr>"

datatype message =
    SignalledGracefully DaemonId
  | SignalledByForce DaemonId
  | DidNotExitInTime DaemonId
  | StillExiting DaemonId real
  | ExitedGracefully DaemonId

datatype log_record = Debug message | Warning message

record Daemon =
  stopper :: DaemonStopper
  handler :: ResourceSpawningHandler
  logger :: "log_record list"
  task :: Task

subsection \<open>The memory of a resource and the scheduler\<close>

type_synonym Body = string

record DaemonCause =
  cause_body :: Body
  cause_memo :: string
  cause_patch :: "(string \<times> string) list"
  cause_stopper :: DaemonStopper

text \<open>
  The daemon table is a Python dict: an association list in insertion order, whose
  entries are the mutable daemon objects. \<open>resource_warnings\<close> collects the
  \<^verbatim>\<open>ResourceWarning\<close>s given to \<^verbatim>\<open>warnings.warn\<close>; \<open>runners\<close> collects the runner tasks
  started with \<^verbatim>\<open>asyncio.create_task\<close>, each with the cause it was given. The stopper
  of a cause is the very object of the daemon record; its current state is the one in
  the record.
\<close>

record world =
  daemons :: "(DaemonId \<times> Daemon) list"
  resource_warnings :: "DaemonId list"
  runners :: "(DaemonId \<times> DaemonCause) list"

text \<open>
  What the other tasks do while the supervisor is suspended is a parameter: \<open>on_yield\<close>
  tells whether the unfinished runner task of a daemon completes within one scheduler
  tick, given the daemon record it observes (its stopper and its cancellation requests);
  \<open>on_wait\<close> tells whether it completes within a timeout. A runner that completes sets
  \<open>DONE\<close> on its stopper.
\<close>

record scheduler =
  on_yield :: "DaemonId \<Rightarrow> Daemon \<Rightarrow> bool"
  on_wait :: "DaemonId \<Rightarrow> Daemon \<Rightarrow> real \<Rightarrow> bool"

definition settle :: "real \<Rightarrow> Daemon \<Rightarrow> Daemon" where
  "settle now d =
     d\<lparr>task := (task d)\<lparr>finished := True\<rparr>, stopper := stopper_set DONE now (stopper d)\<rparr>"

definition yield_one :: "scheduler \<Rightarrow> real \<Rightarrow> DaemonId \<times> Daemon \<Rightarrow> DaemonId \<times> Daemon" where
  "yield_one sch now kd =
     (case kd of (k, d) \<Rightarrow>
        if \<not> finished (task d) \<and> on_yield sch k d then (k, settle now d) else (k, d))"

text \<open>\<^verbatim>\<open>await asyncio.sleep(0)\<close>: every other task gets one tick.\<close>

definition sleep0 :: "scheduler \<Rightarrow> real \<Rightarrow> world \<Rightarrow> world" where
  "sleep0 sch now w = w\<lparr>daemons := map (yield_one sch now) (daemons w)\<rparr>"

definition on_daemon :: "nat \<Rightarrow> (Daemon \<Rightarrow> Daemon) \<Rightarrow> world \<Rightarrow> world" where
  "on_daemon i f w =
     w\<lparr>daemons := (daemons w)[i := (fst (daemons w ! i), f (snd (daemons w ! i)))]\<rparr>"

subsection \<open>Termination on resource deletion: \<^verbatim>\<open>stop_resource_daemons\<close>\<close>

definition DAEMON_POLLING_INTERVAL :: real where
  "DAEMON_POLLING_INTERVAL = 60"

text \<open>Python's \<^verbatim>\<open>x or y\<close> on an optional number: \<^verbatim>\<open>None\<close> and zero are falsy.\<close>

definition or_else :: "real option \<Rightarrow> real \<Rightarrow> real" where
  "or_else x y = (case x of None \<Rightarrow> y | Some v \<Rightarrow> if v = 0 then y else v)"

text \<open>Lines 140-149: the deadlines by handler class.\<close>

fun deletion_timings ::
  "ResourceSpawningHandler \<Rightarrow> error + (real option \<times> real option \<times> real)" where
  "deletion_timings (ResourceDaemonHandler i initial_delay backoff timeout polling) =
     Inr (backoff, timeout, or_else polling DAEMON_POLLING_INTERVAL)"
| "deletion_timings (ResourceTimerHandler i initial_delay interval idle sharp) =
     Inr (None, None, DAEMON_POLLING_INTERVAL)"
| "deletion_timings (OtherSpawningHandler i) =
     Inl (RuntimeError ''Unsupported daemon handler'')"

text \<open>
  Lines 159-183: the approaches to exiting the daemon, by timing. The result is the
  daemon record, the delays appended for it and the resource warnings emitted for it.
\<close>

definition escalate ::
  "real \<Rightarrow> DaemonId \<Rightarrow> real \<Rightarrow> real option \<Rightarrow> real option \<Rightarrow> real \<Rightarrow> Daemon
     \<Rightarrow> Daemon \<times> real list \<times> DaemonId list" where
  "escalate now daemon_id age backoff timeout polling daemon =
     (if finished (task daemon) then (daemon, [], [])
      else if backoff \<noteq> None \<and> age < the backoff then
        ((if \<not> is_set_reason DAEMON_SIGNALLED (stopper daemon)
          then daemon\<lparr>stopper := stopper_set DAEMON_SIGNALLED now (stopper daemon),
                      logger := logger daemon @ [Debug (SignalledGracefully daemon_id)]\<rparr>
          else daemon),
         [the backoff - age], [])
      else if timeout \<noteq> None \<and> age < the timeout + or_else backoff 0 then
        ((if \<not> is_set_reason DAEMON_CANCELLED (stopper daemon)
          then daemon\<lparr>stopper := stopper_set DAEMON_CANCELLED now (stopper daemon),
                      logger := logger daemon @ [Debug (SignalledByForce daemon_id)],
                      task := (task daemon)\<lparr>cancel_calls := Suc (cancel_calls (task daemon))\<rparr>\<rparr>
          else daemon),
         [the timeout + or_else backoff 0 - age], [])
      else if timeout \<noteq> None then
        (if \<not> is_set_reason DAEMON_ABANDONED (stopper daemon)
         then (daemon\<lparr>stopper := stopper_set DAEMON_ABANDONED now (stopper daemon),
                      logger := logger daemon @ [Warning (DidNotExitInTime daemon_id)]\<rparr>,
               [], [daemon_id])
         else (daemon, [], []))
      else
        (daemon\<lparr>logger := logger daemon @ [Debug (StillExiting daemon_id polling)]\<rparr>,
         [polling], []))"

text \<open>Line 152: \<open>RESOURCE_DELETED\<close> is set whatever happens next.\<close>

definition deletion_seen :: "real \<Rightarrow> Daemon \<Rightarrow> Daemon" where
  "deletion_seen now d = d\<lparr>stopper := stopper_set RESOURCE_DELETED now (stopper d)\<rparr>"

text \<open>
  Lines 136-183, the body of the loop for the daemon at position \<open>i\<close> of the table. The
  age is read before \<open>RESOURCE_DELETED\<close> is set: \<^verbatim>\<open>now - (stopper.when or now)\<close>. An
  unsupported handler raises before anything is changed.
\<close>

definition stop_iteration ::
  "real \<Rightarrow> scheduler \<Rightarrow> nat \<Rightarrow> real list \<times> world \<Rightarrow> (error + real list) \<times> world" where
  "stop_iteration now sch i dw =
     (case dw of (delays, w) \<Rightarrow>
      (case daemons w ! i of (daemon_id, daemon) \<Rightarrow>
        let age = now - or_else (when_set (stopper daemon)) now in
        (case deletion_timings (handler daemon) of
           Inl e \<Rightarrow> (Inl e, w)
         | Inr (backoff, timeout, polling) \<Rightarrow>
            let w1 = on_daemon i (deletion_seen now) w;
                w2 = sleep0 sch now w1
            in (case escalate now daemon_id age backoff timeout polling (snd (daemons w2 ! i)) of
                  (daemon', ds, ws) \<Rightarrow>
                    (Inr (delays @ ds),
                     (on_daemon i (\<lambda>d. daemon') w2)
                       \<lparr>resource_warnings := resource_warnings w2 @ ws\<rparr>)))))"

fun stop_loop ::
  "real \<Rightarrow> scheduler \<Rightarrow> nat list \<Rightarrow> real list \<times> world \<Rightarrow> (error + real list) \<times> world" where
  "stop_loop now sch [] dw = (Inr (fst dw), snd dw)"
| "stop_loop now sch (i # rest) dw =
     (case stop_iteration now sch i dw of
        (Inl e, w') \<Rightarrow> (Inl e, w')
      | (Inr delays', w') \<Rightarrow> stop_loop now sch rest (delays', w'))"

text \<open>
  \<open>now\<close> is the reading of \<^verbatim>\<open>time.monotonic()\<close> at line 134; the clock does not move
  during the call, so the readings inside \<^verbatim>\<open>stopper.set\<close> are the same instant.
\<close>

definition stop_resource_daemons ::
  "real \<Rightarrow> scheduler \<Rightarrow> world \<Rightarrow> (error + real list) \<times> world" where
  "stop_resource_daemons now sch w = stop_loop now sch [0..<length (daemons w)] ([], w)"


subsection \<open>Spawning: \<^verbatim>\<open>spawn_resource_daemons\<close>\<close>

text \<open>
  The fields of \<^verbatim>\<open>containers.ResourceMemory\<close> that the code reads (its class is not
  among the sources).
\<close>

record ResourceMemory =
  live_fresh_body :: "Body option"
  user_data :: string

text \<open>
  Lines 61-84, the loop over the handlers. A handler whose id is not a key of the table
  gets a new stopper, a cause with a new empty patch, a runner task and a daemon record,
  stored under its id.
\<close>

fun spawn_loop :: "Body \<Rightarrow> string \<Rightarrow> ResourceSpawningHandler list \<Rightarrow> world \<Rightarrow> world" where
  "spawn_loop body memo [] w = w"
| "spawn_loop body memo (h # hs) w =
     (let daemon_id = handler_id h in
      if daemon_id \<notin> fst ` set (daemons w) then
        let daemon_cause =
              \<lparr>cause_body = body, cause_memo = memo, cause_patch = [],
               cause_stopper = new_stopper\<rparr>;
            daemon =
              \<lparr>stopper = new_stopper, handler = h, logger = [], task = fresh_task\<rparr>
        in spawn_loop body memo hs
             (w\<lparr>daemons := daemons w @ [(daemon_id, daemon)],
                runners := runners w @ [(daemon_id, daemon_cause)]\<rparr>)
      else spawn_loop body memo hs w)"

definition spawn_resource_daemons ::
  "ResourceSpawningHandler list \<Rightarrow> ResourceMemory \<Rightarrow> world \<Rightarrow> (error + real list) \<times> world" where
  "spawn_resource_daemons handlers memory w =
     (case live_fresh_body memory of
        None \<Rightarrow>
          (Inl (RuntimeError ''A daemon is spawned with None as body. This is a bug. Please report.''),
           w)
      | Some body \<Rightarrow> (Inr [], spawn_loop body (user_data memory) handlers w))"


subsection \<open>Termination on operator exit: \<^verbatim>\<open>stop_daemon\<close>\<close>

text \<open>Lines 227-234: the deadlines by handler class.\<close>

fun exit_timings :: "ResourceSpawningHandler \<Rightarrow> error + (real option \<times> real option)" where
  "exit_timings (ResourceDaemonHandler i initial_delay backoff timeout polling) =
     Inr (backoff, timeout)"
| "exit_timings (ResourceTimerHandler i initial_delay interval idle sharp) =
     Inr (None, None)"
| "exit_timings (OtherSpawningHandler i) =
     Inl (RuntimeError ''Unsupported daemon handler'')"

text \<open>
  \<^verbatim>\<open>await asyncio.wait([daemon.task], timeout=t)\<close>: the wait is recorded on the task
  handle; the task completes within it or not, as the scheduler says.
\<close>

definition wait_task :: "scheduler \<Rightarrow> real \<Rightarrow> DaemonId \<Rightarrow> real \<Rightarrow> Daemon \<Rightarrow> Daemon" where
  "wait_task sch now k timeout d =
     (let d1 = d\<lparr>task := (task d)\<lparr>awaited := awaited (task d) @ [timeout]\<rparr>\<rparr>
      in if \<not> finished (task d1) \<and> on_wait sch k d1 timeout then settle now d1 else d1)"

text \<open>
  Lines 238-258. The state is the daemon record and the resource warnings of the host.
  Only the first \<^verbatim>\<open>stopper.set\<close> records a timestamp, so the clock readings of the later
  ones do not matter and all are \<open>now\<close>.
\<close>

definition stop_daemon ::
  "real \<Rightarrow> scheduler \<Rightarrow> DaemonId \<Rightarrow> Daemon \<times> DaemonId list
     \<Rightarrow> (error + unit) \<times> (Daemon \<times> DaemonId list)" where
  "stop_daemon now sch daemon_id dw =
     (case dw of (daemon, warns) \<Rightarrow>
      (case exit_timings (handler daemon) of
         Inl e \<Rightarrow> (Inl e, (daemon, warns))
       | Inr (backoff, timeout) \<Rightarrow>
          let d1 = daemon\<lparr>stopper := stopper_set OPERATOR_EXITING now (stopper daemon)\<rparr>;
              d2 = snd (yield_one sch now (daemon_id, d1));
              d3 = (if finished (task d2)
                    then d2\<lparr>logger := logger d2 @ [Debug (ExitedGracefully daemon_id)]\<rparr>
                    else d2);
              d4 = (if \<not> finished (task d3) \<and> backoff \<noteq> None
                    then wait_task sch now daemon_id (the backoff)
                           (d3\<lparr>stopper := stopper_set DAEMON_SIGNALLED now (stopper d3),
                               logger := logger d3 @ [Debug (SignalledGracefully daemon_id)]\<rparr>)
                    else d3);
              d5 = (if \<not> finished (task d4) \<and> timeout \<noteq> None
                    then wait_task sch now daemon_id (the timeout)
                           (d4\<lparr>stopper := stopper_set DAEMON_CANCELLED now (stopper d4),
                               logger := logger d4 @ [Debug (SignalledByForce daemon_id)],
                               task := (task d4)\<lparr>cancel_calls := Suc (cancel_calls (task d4))\<rparr>\<rparr>)
                    else d4)
          in if \<not> finished (task d5)
             then (Inr (),
                   (d5\<lparr>stopper := stopper_set DAEMON_ABANDONED now (stopper d5),
                       logger := logger d5 @ [Warning (DidNotExitInTime daemon_id)]\<rparr>,
                    warns @ [daemon_id]))
             else (Inr (), (d5, warns))))"


subsection \<open>The runner: its state and what it awaits\<close>

text \<open>
  Modelled from the spec: \<^verbatim>\<open>states.State\<close> and the invocation engine are not among the
  sources. The runner uses only \<^verbatim>\<open>state.done\<close> and \<^verbatim>\<open>state.delay\<close> or
  \<^verbatim>\<open>state.delays\<close>; a state from scratch is not done.
\<close>

record State =
  st_done :: bool
  st_delays :: "real list"

text \<open>
  What one invocation of the handler does, as far as the runner sees it: how long
  \<^verbatim>\<open>execute_handlers_once\<close> takes, an exception escaping it, the state after
  \<^verbatim>\<open>with_outcomes\<close>, whether \<^verbatim>\<open>deliver_results\<close> leaves a non-empty patch, how long
  \<^verbatim>\<open>patch_obj\<close> takes and an exception escaping it.
\<close>

record invocation =
  inv_duration :: real
  inv_error :: "error option"
  inv_done :: bool
  inv_delays :: "real list"
  inv_patch :: bool
  patch_duration :: real
  patch_error :: "error option"

definition from_scratch :: State where
  "from_scratch = \<lparr>st_done = False, st_delays = []\<rparr>"

definition with_outcomes :: "State \<Rightarrow> invocation \<Rightarrow> State" where
  "with_outcomes st outcomes = \<lparr>st_done = inv_done outcomes, st_delays = inv_delays outcomes\<rparr>"

text \<open>
  The world around one runner task, as a timeline: the instant at which the supervisor
  sets a reason on the stopper, \<^verbatim>\<open>memory.idle_reset_time\<close> as the watch path keeps it at
  every instant, the instant at which \<^verbatim>\<open>task.cancel()\<close> is called, and what the handler
  invocations do, in order.
\<close>

record environment =
  stop_at :: "(real \<times> DaemonStoppingReason) option"
  idle_reset :: "real \<Rightarrow> real"
  cancel_at :: "real option"
  invocations :: "nat \<Rightarrow> invocation"

datatype runner_message = PatchingWith | ExitedOnRequest | ExitedOnItsOwn

text \<open>
  The state of a runner task: the monotonic clock, the shared stopper
  (\<^verbatim>\<open>cause.stopper\<close>) and \<^verbatim>\<open>memory.idle_reset_time\<close> as last observed, and the trace of
  its effects: the start instants of the handler invocations, the delays given to
  \<^verbatim>\<open>sleep_or_wait\<close>, the number of patches applied, and the debug log.
\<close>

record runner_state =
  clock :: real
  r_stopper :: DaemonStopper
  idle_reset_time :: real
  invoked :: "real list"
  slept :: "real list list"
  patches :: nat
  r_logger :: "runner_message list"

text \<open>The shared objects as they are at instant \<open>t\<close>.\<close>

definition observe :: "environment \<Rightarrow> real \<Rightarrow> runner_state \<Rightarrow> runner_state" where
  "observe env t s =
     s\<lparr>clock := t,
       r_stopper :=
         (case stop_at env of
            None \<Rightarrow> r_stopper s
          | Some (instant, reason) \<Rightarrow>
              if instant \<le> t then stopper_set reason instant (r_stopper s) else r_stopper s),
       idle_reset_time := idle_reset env t\<rparr>"

text \<open>
  An \<^verbatim>\<open>await\<close> that would resume at instant \<open>t\<close>: a cancellation requested by then is
  raised inside it as \<^verbatim>\<open>CancelledError\<close>.
\<close>

definition suspend :: "environment \<Rightarrow> real \<Rightarrow> runner_state \<Rightarrow> (error + unit) \<times> runner_state" where
  "suspend env t s =
     (case cancel_at env of
        None \<Rightarrow> (Inr (), observe env t s)
      | Some c \<Rightarrow>
          if c \<le> t then (Inl CancelledError, observe env (max c (clock s)) s)
          else (Inr (), observe env t s))"

text \<open>
  Modelled from the spec: \<^verbatim>\<open>sleeping.sleep_or_wait\<close> is not among the sources. It sleeps
  up to the delay and returns early when the stopper is set; a null or non-positive delay
  is a single scheduler yield; of a collection of delays the minimum positive one counts.
  A single delay is the list of it, \<^verbatim>\<open>None\<close> the empty list.
\<close>

definition sleep_or_wait ::
  "environment \<Rightarrow> real list \<Rightarrow> runner_state \<Rightarrow> (error + unit) \<times> runner_state" where
  "sleep_or_wait env delays s =
     (let positive = filter (\<lambda>d. 0 < d) delays;
          duration = (if positive = [] then 0 else Min (set positive));
          wake =
            (if is_set (r_stopper s) then clock s
             else case stop_at env of
                    None \<Rightarrow> clock s + duration
                  | Some (instant, reason) \<Rightarrow>
                      if clock s < instant then min instant (clock s + duration) else clock s)
      in suspend env wake (s\<lparr>slept := slept s @ [delays]\<rparr>))"

text \<open>
  Lines 313-320 and 391-398: the next invocation of the handler, started at the current
  instant.
\<close>

definition execute_handlers_once ::
  "environment \<Rightarrow> runner_state \<Rightarrow> (error + invocation) \<times> runner_state" where
  "execute_handlers_once env s =
     (let outcomes = invocations env (length (invoked s)) in
      case suspend env (clock s + inv_duration outcomes) (s\<lparr>invoked := invoked s @ [clock s]\<rparr>) of
        (Inl e, s1) \<Rightarrow> (Inl e, s1)
      | (Inr u, s1) \<Rightarrow>
          (case inv_error outcomes of Some e \<Rightarrow> (Inl e, s1) | None \<Rightarrow> (Inr outcomes, s1)))"

text \<open>Lines 323-326 and 402-405: apply and clear the patch, if it is not empty.\<close>

definition flush_patch ::
  "environment \<Rightarrow> invocation \<Rightarrow> runner_state \<Rightarrow> (error + unit) \<times> runner_state" where
  "flush_patch env outcomes s =
     (if inv_patch outcomes then
        (case suspend env (clock s + patch_duration outcomes)
                (s\<lparr>r_logger := r_logger s @ [PatchingWith], patches := Suc (patches s)\<rparr>) of
           (Inl e, s1) \<Rightarrow> (Inl e, s1)
         | (Inr u, s1) \<Rightarrow>
             (case patch_error outcomes of Some e \<Rightarrow> (Inl e, s1) | None \<Rightarrow> (Inr (), s1)))
      else (Inr (), s))"

text \<open>Lines 306-307 and 366-367.\<close>

definition initial_sleep ::
  "environment \<Rightarrow> real option \<Rightarrow> runner_state \<Rightarrow> (error + unit) \<times> runner_state" where
  "initial_sleep env initial_delay s =
     (case initial_delay of None \<Rightarrow> (Inr (), s) | Some d \<Rightarrow> sleep_or_wait env [d] s)"

subsection \<open>The daemon loop: \<^verbatim>\<open>_resource_daemon\<close>\<close>

text \<open>
  Lines 311-329. The loops of the runner may run forever, so they take fuel: the number
  of times a loop condition may be evaluated. \<open>None\<close> is the loop still running when the
  fuel is spent.
\<close>

fun daemon_loop ::
  "nat \<Rightarrow> environment \<Rightarrow> State \<Rightarrow> runner_state \<Rightarrow> ((error + unit) \<times> runner_state) option" where
  "daemon_loop 0 env st s = None"
| "daemon_loop (Suc n) env st s =
     (if \<not> is_set (r_stopper s) \<and> \<not> st_done st then
        (case execute_handlers_once env s of
           (Inl e, s1) \<Rightarrow> Some (Inl e, s1)
         | (Inr outcomes, s1) \<Rightarrow>
             (case flush_patch env outcomes s1 of
                (Inl e, s2) \<Rightarrow> Some (Inl e, s2)
              | (Inr u, s2) \<Rightarrow>
                  (case sleep_or_wait env (st_delays (with_outcomes st outcomes)) s2 of
                     (Inl e, s3) \<Rightarrow> Some (Inl e, s3)
                   | (Inr u', s3) \<Rightarrow> daemon_loop n env (with_outcomes st outcomes) s3)))
      else Some (Inr (), s))"

definition resource_daemon ::
  "nat \<Rightarrow> environment \<Rightarrow> real option \<Rightarrow> runner_state
     \<Rightarrow> ((error + unit) \<times> runner_state) option" where
  "resource_daemon n env initial_delay s =
     (case initial_sleep env initial_delay s of
        (Inl e, s1) \<Rightarrow> Some (Inl e, s1)
      | (Inr u, s1) \<Rightarrow>
          (case daemon_loop n env from_scratch s1 of
             None \<Rightarrow> None
           | Some (Inl e, s2) \<Rightarrow> Some (Inl e, s2)
           | Some (Inr u', s2) \<Rightarrow>
               Some (Inr (),
                 s2\<lparr>r_logger := r_logger s2 @
                      [if is_set (r_stopper s2) then ExitedOnRequest else ExitedOnItsOwn]\<rparr>)))"

subsection \<open>The timer loop: \<^verbatim>\<open>_resource_timer\<close>\<close>

text \<open>Lines 381-383: sleep until the resource has been idle for long enough.\<close>

fun idle_gate ::
  "nat \<Rightarrow> environment \<Rightarrow> real \<Rightarrow> runner_state \<Rightarrow> ((error + unit) \<times> runner_state) option" where
  "idle_gate 0 env idle s = None"
| "idle_gate (Suc n) env idle s =
     (if \<not> is_set (r_stopper s) \<and> clock s - idle_reset_time s < idle then
        (case sleep_or_wait env [idle_reset_time s + idle - clock s] s of
           (Inl e, s1) \<Rightarrow> Some (Inl e, s1)
         | (Inr u, s1) \<Rightarrow> idle_gate n env idle s1)
      else Some (Inr (), s))"

text \<open>Lines 429-430: wait till the next change of the resource.\<close>

fun idle_wait ::
  "nat \<Rightarrow> environment \<Rightarrow> real \<Rightarrow> real \<Rightarrow> runner_state
     \<Rightarrow> ((error + unit) \<times> runner_state) option" where
  "idle_wait 0 env idle started s = None"
| "idle_wait (Suc n) env idle started s =
     (if idle_reset_time s \<le> started then
        (case sleep_or_wait env [idle] s of
           (Inl e, s1) \<Rightarrow> Some (Inl e, s1)
         | (Inr u, s1) \<Rightarrow> idle_wait n env idle started s1)
      else Some (Inr (), s))"

text \<open>
  Python's \<^verbatim>\<open>x % y\<close> on floats: the remainder has the sign of the divisor, and a zero
  divisor raises \<^verbatim>\<open>ZeroDivisionError\<close>.
\<close>

definition py_mod :: "real \<Rightarrow> real \<Rightarrow> error + real" where
  "py_mod x y = (if y = 0 then Inl ZeroDivisionError else Inr (x - y * of_int \<lfloor>x / y\<rfloor>))"

datatype control = Continue | Break

definition then_continue ::
  "(error + unit) \<times> runner_state \<Rightarrow> (error + control) \<times> runner_state" where
  "then_continue rs = (case rs of (Inl e, s) \<Rightarrow> (Inl e, s) | (Inr u, s) \<Rightarrow> (Inr Continue, s))"

text \<open>Lines 409-435: the sleep until the next tick, after an invocation.\<close>

definition schedule_next ::
  "nat \<Rightarrow> environment \<Rightarrow> real option \<Rightarrow> real option \<Rightarrow> bool \<Rightarrow> State \<Rightarrow> real \<Rightarrow> runner_state
     \<Rightarrow> ((error + control) \<times> runner_state) option" where
  "schedule_next n env interval idle sharp st started s =
     (if \<not> st_done st then Some (then_continue (sleep_or_wait env (st_delays st) s))
      else if interval \<noteq> None \<and> sharp then
        (case py_mod (clock s - started) (the interval) of
           Inl e \<Rightarrow> Some (Inl e, s)
         | Inr passed \<Rightarrow> Some (then_continue (sleep_or_wait env [the interval - passed] s)))
      else if interval \<noteq> None then
        Some (then_continue (sleep_or_wait env [the interval] s))
      else if idle \<noteq> None then
        map_option then_continue (idle_wait n env (the idle) started s)
      else Some (Inr Break, s))"

text \<open>Lines 371-435.\<close>

fun timer_loop ::
  "nat \<Rightarrow> environment \<Rightarrow> real option \<Rightarrow> real option \<Rightarrow> bool \<Rightarrow> State \<Rightarrow> runner_state
     \<Rightarrow> ((error + unit) \<times> runner_state) option" where
  "timer_loop 0 env interval idle sharp st s = None"
| "timer_loop (Suc n) env interval idle sharp st s =
     (if is_set (r_stopper s) then Some (Inr (), s)
      else
        (case (case idle of None \<Rightarrow> Some (Inr (), s) | Some i \<Rightarrow> idle_gate n env i s) of
           None \<Rightarrow> None
         | Some (Inl e, s1) \<Rightarrow> Some (Inl e, s1)
         | Some (Inr u, s1) \<Rightarrow>
             if idle \<noteq> None \<and> is_set (r_stopper s1) then
               timer_loop n env interval idle sharp (if st_done st then from_scratch else st) s1
             else
               (case execute_handlers_once env s1 of
                  (Inl e, s2) \<Rightarrow> Some (Inl e, s2)
                | (Inr outcomes, s2) \<Rightarrow>
                    (case flush_patch env outcomes s2 of
                       (Inl e, s3) \<Rightarrow> Some (Inl e, s3)
                     | (Inr u', s3) \<Rightarrow>
                         (case schedule_next n env interval idle sharp
                                 (with_outcomes (if st_done st then from_scratch else st) outcomes)
                                 (clock s1) s3 of
                            None \<Rightarrow> None
                          | Some (Inl e, s4) \<Rightarrow> Some (Inl e, s4)
                          | Some (Inr Break, s4) \<Rightarrow> Some (Inr (), s4)
                          | Some (Inr Continue, s4) \<Rightarrow>
                              timer_loop n env interval idle sharp
                                (with_outcomes (if st_done st then from_scratch else st) outcomes)
                                s4)))))"

definition resource_timer ::
  "nat \<Rightarrow> environment \<Rightarrow> real option \<Rightarrow> real option \<Rightarrow> real option \<Rightarrow> bool \<Rightarrow> runner_state
     \<Rightarrow> ((error + unit) \<times> runner_state) option" where
  "resource_timer n env initial_delay interval idle sharp s =
     (case initial_sleep env initial_delay s of
        (Inl e, s1) \<Rightarrow> Some (Inl e, s1)
      | (Inr u, s1) \<Rightarrow> timer_loop n env interval idle sharp from_scratch s1)"

subsection \<open>The guard: \<^verbatim>\<open>_runner\<close>\<close>

text \<open>
  Lines 274-286: the wrapper by handler class, inside \<^verbatim>\<open>try\<close>, and the \<^verbatim>\<open>finally\<close>
  block, which sets \<open>DONE\<close> whatever the outcome and lets the outcome pass.
\<close>

definition runner_body ::
  "nat \<Rightarrow> environment \<Rightarrow> ResourceSpawningHandler \<Rightarrow> runner_state
     \<Rightarrow> ((error + unit) \<times> runner_state) option" where
  "runner_body n env h s =
     (case h of
        ResourceDaemonHandler i initial_delay backoff timeout polling \<Rightarrow>
          resource_daemon n env initial_delay s
      | ResourceTimerHandler i initial_delay interval idle sharp \<Rightarrow>
          resource_timer n env initial_delay interval idle sharp s
      | OtherSpawningHandler i \<Rightarrow>
          Some (Inl (RuntimeError ''Cannot determine which task wrapper to use. This is a bug.''),
                s))"

definition runner ::
  "nat \<Rightarrow> environment \<Rightarrow> ResourceSpawningHandler \<Rightarrow> runner_state
     \<Rightarrow> ((error + unit) \<times> runner_state) option" where
  "runner n env h s =
     (case runner_body n env h s of
        None \<Rightarrow> None
      | Some (outcome, s1) \<Rightarrow>
          Some (outcome, s1\<lparr>r_stopper := stopper_set DONE (clock s1) (r_stopper s1)\<rparr>))"


subsection \<open>Concrete daemons for the scenarios\<close>

text \<open>A scheduler under which no runner task ever completes: the tasks ignore the stopper.\<close>

definition stuck :: scheduler where
  "stuck = \<lparr>on_yield = (\<lambda>k d. False), on_wait = (\<lambda>k d t. False)\<rparr>"

definition daemon_of :: "ResourceSpawningHandler \<Rightarrow> DaemonStopper \<Rightarrow> Daemon" where
  "daemon_of h s = \<lparr>stopper = s, handler = h, logger = [], task = fresh_task\<rparr>"

definition world_of :: "Daemon \<Rightarrow> world" where
  "world_of d = \<lparr>daemons = [(handler_id (handler d), d)], resource_warnings = [], runners = []\<rparr>"

text \<open>Scenario S2: a daemon with a backoff of 5 seconds and a timeout of 10 seconds.\<close>

definition S2_handler :: ResourceSpawningHandler where
  "S2_handler = ResourceDaemonHandler ''d'' None (Some 5) (Some 10) None"

definition timer_handler :: ResourceSpawningHandler where
  "timer_handler = ResourceTimerHandler ''t'' None (Some 5) None True"

definition S2_at :: "DaemonStoppingReason set \<Rightarrow> world" where
  "S2_at rs = world_of (daemon_of S2_handler \<lparr>reasons = rs, when_set = Some 100\<rparr>)"


text \<open>An empty daemon table, and memories with and without an observed body.\<close>

definition empty_world :: world where
  "empty_world = \<lparr>daemons = [], resource_warnings = [], runners = []\<rparr>"

definition seen_memory :: ResourceMemory where
  "seen_memory = \<lparr>live_fresh_body = Some ''body'', user_data = ''memo''\<rparr>"

definition unseen_memory :: ResourceMemory where
  "unseen_memory = \<lparr>live_fresh_body = None, user_data = ''memo''\<rparr>"

text \<open>
  Scenario S3: a handler that takes 2 seconds and succeeds, leaving no patch; the resource
  is deleted at a given instant and never touched otherwise; timers with an interval of 5
  seconds, sharp and not, a sharp timer with an interval of zero, and an idle-only timer.
\<close>

definition two_seconds :: invocation where
  "two_seconds = \<lparr>inv_duration = 2, inv_error = None, inv_done = True, inv_delays = [],
     inv_patch = False, patch_duration = 0, patch_error = None\<rparr>"

definition deleted_at :: "real \<Rightarrow> environment" where
  "deleted_at t = \<lparr>stop_at = Some (t, RESOURCE_DELETED), idle_reset = (\<lambda>t. 0), cancel_at = None,
     invocations = (\<lambda>k. two_seconds)\<rparr>"

definition at_instant :: "real \<Rightarrow> runner_state" where
  "at_instant t = \<lparr>clock = t, r_stopper = new_stopper, idle_reset_time = 0, invoked = [], slept = [],
     patches = 0, r_logger = []\<rparr>"

definition sharp_timer :: ResourceSpawningHandler where
  "sharp_timer = ResourceTimerHandler ''t'' None (Some 5) None True"

definition plain_timer :: ResourceSpawningHandler where
  "plain_timer = ResourceTimerHandler ''t'' None (Some 5) None False"

definition zero_timer :: ResourceSpawningHandler where
  "zero_timer = ResourceTimerHandler ''t'' None (Some 0) None True"

definition idle_timer :: ResourceSpawningHandler where
  "idle_timer = ResourceTimerHandler ''t'' None None (Some 3) False"

definition undisturbed :: environment where
  "undisturbed = \<lparr>stop_at = None, idle_reset = (\<lambda>t. 0), cancel_at = None,
     invocations = (\<lambda>k. two_seconds)\<rparr>"

text \<open>An invocation whose patch is refused by the cluster.\<close>

definition failing_patch :: invocation where
  "failing_patch = two_seconds\<lparr>inv_patch := True, patch_error := Some PatchingError\<rparr>"

definition refusing_patches :: environment where
  "refusing_patches = undisturbed\<lparr>invocations := (\<lambda>k. failing_patch)\<rparr>"


section \<open>Properties of \<^verbatim>\<open>stop_resource_daemons\<close>\<close>

lemma length_on_daemon [simp]: "length (daemons (on_daemon i f w)) = length (daemons w)"
  by (simp add: on_daemon_def)

lemma length_sleep0 [simp]: "length (daemons (sleep0 sch now w)) = length (daemons w)"
  by (simp add: sleep0_def)

lemma nth_on_daemon_same:
  "i < length (daemons w) \<Longrightarrow>
   daemons (on_daemon i f w) ! i = (fst (daemons w ! i), f (snd (daemons w ! i)))"
  by (simp add: on_daemon_def)

lemma nth_on_daemon_other:
  "j \<noteq> i \<Longrightarrow> daemons (on_daemon i f w) ! j = daemons w ! j"
  by (simp add: on_daemon_def)

lemma nth_sleep0:
  "i < length (daemons w) \<Longrightarrow>
   daemons (sleep0 sch now w) ! i = yield_one sch now (daemons w ! i)"
  by (simp add: sleep0_def)

lemma warnings_on_daemon [simp]: "resource_warnings (on_daemon i f w) = resource_warnings w"
  by (simp add: on_daemon_def)

lemma warnings_sleep0 [simp]: "resource_warnings (sleep0 sch now w) = resource_warnings w"
  by (simp add: sleep0_def)

text \<open>
  One iteration over a supported handler, with the table lookups resolved: the record
  that line 159 inspects is the daemon with \<open>RESOURCE_DELETED\<close> set, after one tick.
\<close>

lemma stop_iteration_unfold:
  assumes "i < length (daemons w)" and "daemons w ! i = (k, d)"
    and "deletion_timings (handler d) = Inr (backoff, timeout, polling)"
  shows "stop_iteration now sch i (delays, w) =
     (case escalate now k (now - or_else (when_set (stopper d)) now) backoff timeout polling
             (snd (yield_one sch now (k, deletion_seen now d))) of
        (d', ds, ws) \<Rightarrow>
          (Inr (delays @ ds),
           (on_daemon i (\<lambda>_. d') (sleep0 sch now (on_daemon i (deletion_seen now) w)))
             \<lparr>resource_warnings := resource_warnings w @ ws\<rparr>))"
  using assms
  by (simp add: stop_iteration_def Let_def nth_sleep0 nth_on_daemon_same)

lemma yield_one_unfinished:
  "\<not> finished (task d) \<Longrightarrow> \<not> on_yield sch k d \<Longrightarrow> yield_one sch now (k, d) = (k, d)"
  by (simp add: yield_one_def)

text \<open>
  Claim C1. In one visit of stop-for-deletion to a daemon record whose handler is a
  \<open>ResourceDaemonHandler\<close> with a positive backoff and a positive timeout, and whose task
  is still unfinished after the scheduler tick, the phase depends on the age alone, where
  the age is \<^verbatim>\<open>now - (stopper.when or now)\<close> read before the visit. While
  \<open>age < backoff\<close> the stopper has \<open>DAEMON_SIGNALLED\<close> afterwards and the delay
  \<open>backoff - age\<close> is appended. While \<open>backoff \<le> age < backoff + timeout\<close> the stopper has
  \<open>DAEMON_CANCELLED\<close> afterwards, the task is cancelled (once: when the reason was not
  yet flagged) and \<open>backoff + timeout - age\<close> is appended. Once
  \<open>backoff + timeout \<le> age\<close> the stopper has \<open>DAEMON_ABANDONED\<close> afterwards, a resource
  warning is emitted (once: when the reason was not yet flagged) and no delay is appended.
\<close>

theorem stop_for_deletion_phase_by_age:
  assumes "i < length (daemons w)"
    and "daemons w ! i = (k, d)"
    and "handler d = ResourceDaemonHandler hid initial_delay (Some backoff) (Some timeout) polling"
    and "0 < backoff" and "0 < timeout"
    and "\<not> finished (task d)"
    and "\<not> on_yield sch k (deletion_seen now d)"
    and "age = now - or_else (when_set (stopper d)) now"
    and "r = stop_iteration now sch i (delays, w)"
    and "d' = snd (daemons (snd r) ! i)"
  shows "(age < backoff \<longrightarrow>
            fst r = Inr (delays @ [backoff - age]) \<and>
            DAEMON_SIGNALLED \<in> reasons (stopper d') \<and>
            cancel_calls (task d') = cancel_calls (task d) \<and>
            resource_warnings (snd r) = resource_warnings w)
       \<and> (backoff \<le> age \<and> age < backoff + timeout \<longrightarrow>
            fst r = Inr (delays @ [backoff + timeout - age]) \<and>
            DAEMON_CANCELLED \<in> reasons (stopper d') \<and>
            cancel_calls (task d') =
              (if DAEMON_CANCELLED \<in> reasons (stopper d) then cancel_calls (task d)
               else Suc (cancel_calls (task d))) \<and>
            resource_warnings (snd r) = resource_warnings w)
       \<and> (backoff + timeout \<le> age \<longrightarrow>
            fst r = Inr delays \<and>
            DAEMON_ABANDONED \<in> reasons (stopper d') \<and>
            cancel_calls (task d') = cancel_calls (task d) \<and>
            resource_warnings (snd r) =
              (if DAEMON_ABANDONED \<in> reasons (stopper d) then resource_warnings w
               else resource_warnings w @ [k]))"
proof -
  have t: "deletion_timings (handler d) =
      Inr (Some backoff, Some timeout, or_else polling DAEMON_POLLING_INTERVAL)"
    using assms(3) by simp
  have y: "yield_one sch now (k, deletion_seen now d) = (k, deletion_seen now d)"
    using assms(6,7) by (simp add: yield_one_def deletion_seen_def)
  have b: "or_else (Some backoff) 0 = backoff"
    by (simp add: or_else_def)
  note u = stop_iteration_unfold [OF assms(1,2) t, of now sch delays, unfolded y]
  show ?thesis
    using assms(1,4,5,6)
    unfolding assms(10) assms(9) assms(8) u
    by (simp add: escalate_def b deletion_seen_def is_set_reason_def stopper_set_def
        nth_on_daemon_same)
qed

text \<open>
  Scenario S2 for C1: the daemon of S2 visited unflagged at age 0, visited at age 5 with
  \<open>DAEMON_SIGNALLED\<close> flagged, and visited at age 15 with \<open>DAEMON_CANCELLED\<close> flagged.
\<close>

theorem stop_for_deletion_phase_by_age_witness:
  "fst (stop_iteration 100 stuck 0 ([], world_of (daemon_of S2_handler new_stopper))) = Inr [5]
   \<and> DAEMON_SIGNALLED \<in> reasons (stopper (snd (daemons (snd
        (stop_iteration 100 stuck 0 ([], world_of (daemon_of S2_handler new_stopper)))) ! 0)))
   \<and> fst (stop_iteration 105 stuck 0
        ([], S2_at {RESOURCE_DELETED, DAEMON_SIGNALLED})) = Inr [10]
   \<and> cancel_calls (task (snd (daemons (snd (stop_iteration 105 stuck 0
        ([], S2_at {RESOURCE_DELETED, DAEMON_SIGNALLED}))) ! 0))) = 1
   \<and> fst (stop_iteration 115 stuck 0
        ([], S2_at {RESOURCE_DELETED, DAEMON_SIGNALLED, DAEMON_CANCELLED})) = Inr []
   \<and> resource_warnings (snd (stop_iteration 115 stuck 0
        ([], S2_at {RESOURCE_DELETED, DAEMON_SIGNALLED, DAEMON_CANCELLED}))) = [''d'']"
proof -
  have h: "handler (daemon_of S2_handler s) = ResourceDaemonHandler ''d'' None (Some 5) (Some 10) None"
    for s by (simp add: daemon_of_def S2_handler_def)
  have u: "\<not> finished (task (daemon_of S2_handler s))"
    for s by (simp add: daemon_of_def fresh_task_def)
  have c: "cancel_calls (task (daemon_of S2_handler s)) = 0"
    for s by (simp add: daemon_of_def fresh_task_def)
  have n: "\<not> on_yield stuck k d" for k d
    by (simp add: stuck_def)
  have e: "daemons (world_of (daemon_of S2_handler s)) ! 0 = (''d'', daemon_of S2_handler s)"
    "0 < length (daemons (world_of (daemon_of S2_handler s)))"
    "resource_warnings (world_of (daemon_of S2_handler s)) = []"
    for s by (simp_all add: world_of_def h)
  have s: "stopper (daemon_of S2_handler s) = s" for s
    by (simp add: daemon_of_def)
  let ?s1 = "\<lparr>reasons = {RESOURCE_DELETED, DAEMON_SIGNALLED}, when_set = Some 100\<rparr>"
  let ?s2 = "\<lparr>reasons = {RESOURCE_DELETED, DAEMON_SIGNALLED, DAEMON_CANCELLED},
             when_set = Some 100\<rparr>"
  show ?thesis
    using
      stop_for_deletion_phase_by_age [where now = 100 and delays = "[]" and sch = stuck,
        OF e(2) [of new_stopper] e(1) h _ _ u n refl refl refl]
      stop_for_deletion_phase_by_age [where now = 105 and delays = "[]" and sch = stuck,
        OF e(2) [of ?s1] e(1) h _ _ u n refl refl refl]
      stop_for_deletion_phase_by_age [where now = 115 and delays = "[]" and sch = stuck,
        OF e(2) [of ?s2] e(1) h _ _ u n refl refl refl]
    by (simp add: s c e S2_at_def or_else_def new_stopper_def)
qed

text \<open>
  Claim C7. In one visit of stop-for-deletion to a daemon record whose handler is a
  \<open>ResourceTimerHandler\<close> and whose task is still unfinished after the scheduler tick,
  whatever the age: the only reason set is \<open>RESOURCE_DELETED\<close> (so none of
  \<open>DAEMON_SIGNALLED\<close>, \<open>DAEMON_CANCELLED\<close>, \<open>DAEMON_ABANDONED\<close> is added), the task handle is
  untouched (no cancellation), no resource warning is emitted, and the delay appended is
  \<open>DAEMON_POLLING_INTERVAL\<close>, which is 60 seconds.
\<close>

theorem stop_for_deletion_polls_timers:
  assumes "i < length (daemons w)"
    and "daemons w ! i = (k, d)"
    and "handler d = ResourceTimerHandler hid initial_delay interval idle sharp"
    and "\<not> finished (task d)"
    and "\<not> on_yield sch k (deletion_seen now d)"
    and "r = stop_iteration now sch i (delays, w)"
    and "d' = snd (daemons (snd r) ! i)"
  shows "fst r = Inr (delays @ [DAEMON_POLLING_INTERVAL])
       \<and> DAEMON_POLLING_INTERVAL = 60
       \<and> reasons (stopper d') = insert RESOURCE_DELETED (reasons (stopper d))
       \<and> task d' = task d
       \<and> logger d' = logger d @ [Debug (StillExiting k 60)]
       \<and> resource_warnings (snd r) = resource_warnings w"
proof -
  have t: "deletion_timings (handler d) = Inr (None, None, DAEMON_POLLING_INTERVAL)"
    using assms(3) by simp
  have y: "yield_one sch now (k, deletion_seen now d) = (k, deletion_seen now d)"
    using assms(4,5) by (simp add: yield_one_def deletion_seen_def)
  note u = stop_iteration_unfold [OF assms(1,2) t, of now sch delays, unfolded y]
  show ?thesis
    using assms(1,4)
    unfolding assms(7) assms(6) u
    by (simp add: escalate_def deletion_seen_def stopper_set_def nth_on_daemon_same
        DAEMON_POLLING_INTERVAL_def)
qed

theorem stop_for_deletion_polls_timers_witness:
  "fst (stop_iteration 1000 stuck 0
      ([], world_of (daemon_of timer_handler \<lparr>reasons = {RESOURCE_DELETED}, when_set = Some 1\<rparr>)))
     = Inr [60]
   \<and> reasons (stopper (snd (daemons (snd (stop_iteration 1000 stuck 0
      ([], world_of (daemon_of timer_handler \<lparr>reasons = {RESOURCE_DELETED}, when_set = Some 1\<rparr>))))
      ! 0))) = {RESOURCE_DELETED}
   \<and> cancel_calls (task (snd (daemons (snd (stop_iteration 1000 stuck 0
      ([], world_of (daemon_of timer_handler \<lparr>reasons = {RESOURCE_DELETED}, when_set = Some 1\<rparr>))))
      ! 0))) = 0"
proof -
  let ?s = "\<lparr>reasons = {RESOURCE_DELETED}, when_set = Some 1\<rparr>"
  have h: "handler (daemon_of timer_handler ?s) = ResourceTimerHandler ''t'' None (Some 5) None True"
    by (simp add: daemon_of_def timer_handler_def)
  have u: "\<not> finished (task (daemon_of timer_handler ?s))"
    by (simp add: daemon_of_def fresh_task_def)
  have n: "\<not> on_yield stuck k d" for k d
    by (simp add: stuck_def)
  have e: "daemons (world_of (daemon_of timer_handler ?s)) ! 0 = (''t'', daemon_of timer_handler ?s)"
    "0 < length (daemons (world_of (daemon_of timer_handler ?s)))"
    by (simp_all add: world_of_def h)
  show ?thesis
    using stop_for_deletion_polls_timers [OF e(2) e(1) h u n refl refl,
        where now = 1000 and delays = "[]"]
    by (simp add: daemon_of_def fresh_task_def)
qed


section \<open>Whole calls of \<^verbatim>\<open>stop_resource_daemons\<close>\<close>


lemma fst_yield_one [simp]: "fst (yield_one sch now e) = fst e"
  by (cases e) (simp add: yield_one_def)

lemma yield_one_cases:
  "yield_one sch now e = e \<or> finished (task (snd (yield_one sch now e)))"
  by (cases e) (simp add: yield_one_def settle_def)

lemma escalate_finished [simp]:
  "finished (task (fst (escalate now k age b t p d))) = finished (task d)"
  by (simp add: escalate_def)

lemma escalate_when_finished:
  "finished (task d) \<Longrightarrow> escalate now k age b t p d = (d, [], [])"
  by (simp add: escalate_def)

text \<open>
  A daemon whose task is finished when line 159 looks at it (it had finished before, or it
  exits within the scheduler tick) gets no further reason and contributes no delay.
\<close>

lemma stop_iteration_finished:
  assumes "i < length (daemons w)" and "daemons w ! i = (k, d)"
    and "deletion_timings (handler d) = Inr (b, t, p)"
    and "finished (task d) \<or> on_yield sch k (deletion_seen now d)"
  shows "fst (stop_iteration now sch i (delays, w)) = Inr delays"
    and "resource_warnings (snd (stop_iteration now sch i (delays, w))) = resource_warnings w"
proof -
  have "finished (task (snd (yield_one sch now (k, deletion_seen now d))))"
    using assms(4) by (auto simp add: yield_one_def settle_def deletion_seen_def)
  then have e: "escalate now k age b t p (snd (yield_one sch now (k, deletion_seen now d))) =
      (snd (yield_one sch now (k, deletion_seen now d)), [], [])" for age
    by (rule escalate_when_finished)
  show "fst (stop_iteration now sch i (delays, w)) = Inr delays"
    and "resource_warnings (snd (stop_iteration now sch i (delays, w))) = resource_warnings w"
    by (simp_all add: stop_iteration_unfold [OF assms(1,2,3)] e)
qed

lemma stop_iteration_length [simp]:
  "length (daemons (snd (stop_iteration now sch j dw))) = length (daemons (snd dw))"
  by (simp add: stop_iteration_def Let_def split: prod.split sum.split)

lemma stop_loop_length [simp]:
  "length (daemons (snd (stop_loop now sch js dw))) = length (daemons (snd dw))"
proof (induction js arbitrary: dw)
  case Nil
  show ?case by simp
next
  case (Cons j js)
  obtain r w1 where it: "stop_iteration now sch j dw = (r, w1)"
    by fastforce
  have len: "length (daemons w1) = length (daemons (snd dw))"
    using stop_iteration_length [of now sch j dw] it by simp
  show ?case
  proof (cases r)
    case (Inl e)
    with it len show ?thesis by simp
  next
    case (Inr dl1)
    with it len Cons.IH [of "(dl1, w1)"] show ?thesis by simp
  qed
qed

lemma stop_iteration_raises:
  assumes "daemons w ! j = (k, d)" and "deletion_timings (handler d) = Inl e"
  shows "stop_iteration now sch j (dl, w) = (Inl e, w)"
  using assms by (simp add: stop_iteration_def)

lemma stop_iteration_other:
  assumes "j \<noteq> i" and "i < length (daemons w)"
    and "\<not> finished (task (snd (daemons (snd (stop_iteration now sch j (dl, w))) ! i)))"
  shows "daemons (snd (stop_iteration now sch j (dl, w))) ! i = daemons w ! i"
proof -
  obtain k d where e: "daemons w ! j = (k, d)"
    by fastforce
  show ?thesis
  proof (cases "deletion_timings (handler d)")
    case (Inl err)
    then show ?thesis
      using stop_iteration_raises [OF e] by simp
  next
    case (Inr x)
    obtain b t p where x: "x = (b, t, p)"
      by (cases x) auto
    have nth: "daemons (snd (stop_iteration now sch j (dl, w))) ! i
        = yield_one sch now (daemons w ! i)"
      using e Inr x assms(1,2)
      by (simp add: stop_iteration_def Let_def nth_on_daemon_other nth_sleep0
          split: prod.split)
    from yield_one_cases [of sch now "daemons w ! i"] assms(3) nth show ?thesis
      by auto
  qed
qed

lemma stop_iteration_same:
  assumes "i < length (daemons w)" and "daemons w ! i = (k, d)"
    and "deletion_timings (handler d) = Inr (b, t, p)"
    and "\<not> finished (task (snd (daemons (snd (stop_iteration now sch i (dl, w))) ! i)))"
  shows "daemons (snd (stop_iteration now sch i (dl, w))) ! i =
      (k, fst (escalate now k (now - or_else (when_set (stopper d)) now) b t p
                 (deletion_seen now d)))"
    and "\<not> finished (task d)"
proof -
  let ?y = "yield_one sch now (k, deletion_seen now d)"
  let ?age = "now - or_else (when_set (stopper d)) now"
  have nth: "daemons (snd (stop_iteration now sch i (dl, w))) ! i
      = (k, fst (escalate now k ?age b t p (snd ?y)))"
    using assms(1,2)
    by (simp add: stop_iteration_unfold [OF assms(1,2,3)] nth_on_daemon_same nth_sleep0
        split: prod.split)
  have nf: "\<not> finished (task (snd ?y))"
    using assms(4) nth by simp
  with yield_one_cases [of sch now "(k, deletion_seen now d)"]
  have y: "?y = (k, deletion_seen now d)"
    by auto
  from nth y show "daemons (snd (stop_iteration now sch i (dl, w))) ! i =
      (k, fst (escalate now k ?age b t p (deletion_seen now d)))"
    by simp
  from nf y show "\<not> finished (task d)"
    by (simp add: deletion_seen_def)
qed

lemma stop_loop_other:
  assumes "i \<notin> set js" and "i < length (daemons w)"
    and "\<not> finished (task (snd (daemons (snd (stop_loop now sch js (dl, w))) ! i)))"
  shows "daemons (snd (stop_loop now sch js (dl, w))) ! i = daemons w ! i"
  using assms
proof (induction js arbitrary: dl w)
  case Nil
  then show ?case by simp
next
  case (Cons j js)
  obtain r w1 where it: "stop_iteration now sch j (dl, w) = (r, w1)"
    by fastforce
  have len: "length (daemons w1) = length (daemons w)"
    using stop_iteration_length [of now sch j "(dl, w)"] it by simp
  have ji: "j \<noteq> i" and ijs: "i \<notin> set js"
    using Cons.prems(1) by auto
  have step: "\<not> finished (task (snd (daemons w1 ! i))) \<Longrightarrow> daemons w1 ! i = daemons w ! i"
    using stop_iteration_other [OF ji Cons.prems(2), of now sch dl] it by simp
  show ?case
  proof (cases r)
    case (Inl e)
    with it Cons.prems(3) step show ?thesis by simp
  next
    case (Inr dl1)
    have eq: "stop_loop now sch (j # js) (dl, w) = stop_loop now sch js (dl1, w1)"
      using it Inr by simp
    have "daemons (snd (stop_loop now sch js (dl1, w1))) ! i = daemons w1 ! i"
      using Cons.IH [OF ijs, of w1 dl1] Cons.prems(2,3) len eq by simp
    with Cons.prems(3) eq step show ?thesis by simp
  qed
qed

lemma stop_loop_append:
  "stop_loop now sch (xs @ ys) dw =
     (case stop_loop now sch xs dw of
        (Inl e, w') \<Rightarrow> (Inl e, w')
      | (Inr delays', w') \<Rightarrow> stop_loop now sch ys (delays', w'))"
  by (induction xs arbitrary: dw) (simp_all split: prod.split sum.split)

lemma upt_split_at: "i < n \<Longrightarrow> [0..<n] = [0..<i] @ i # [Suc i..<n]"
  using upt_add_eq_append [of 0 i "n - i"] upt_conv_Cons [of i n] by simp


lemma stop_iteration_returns:
  assumes "stop_iteration now sch i (dl, w) = (Inr dl', w')"
  shows "\<exists>b t p. deletion_timings (handler (snd (daemons w ! i))) = Inr (b, t, p)"
proof (cases "deletion_timings (handler (snd (daemons w ! i)))")
  case (Inl e)
  then show ?thesis
    using assms stop_iteration_raises [of w i "fst (daemons w ! i)" "snd (daemons w ! i)" e now sch dl]
    by simp
next
  case (Inr x)
  then show ?thesis by (cases x) auto
qed

text \<open>
  A call that returns, seen from one daemon whose task is still unfinished afterwards:
  every tick left its record alone, so the record is what its own visit made of it.
\<close>

lemma stop_call_unfinished:
  assumes call: "stop_resource_daemons now sch w = (Inr dl, w')"
    and i: "i < length (daemons w)" and e: "daemons w ! i = (k, d)"
    and u: "\<not> finished (task (snd (daemons w' ! i)))"
  shows "\<exists>b t p. deletion_timings (handler d) = Inr (b, t, p) \<and>
           daemons w' ! i =
             (k, fst (escalate now k (now - or_else (when_set (stopper d)) now) b t p
                        (deletion_seen now d)))"
    and "\<not> finished (task d)"
proof -
  let ?n = "length (daemons w)"
  obtain r1 w1 where l1: "stop_loop now sch [0..<i] ([], w) = (r1, w1)"
    by fastforce
  have whole: "stop_loop now sch ([0..<i] @ i # [Suc i..<?n]) ([], w) = (Inr dl, w')"
    using call upt_split_at [OF i] by (simp add: stop_resource_daemons_def)
  obtain dl1 where r1: "r1 = Inr dl1"
    using whole l1 by (cases r1) (simp_all add: stop_loop_append)
  obtain r2 w2 where it: "stop_iteration now sch i (dl1, w1) = (r2, w2)"
    by fastforce
  obtain dl2 where r2: "r2 = Inr dl2"
    using whole l1 r1 it by (cases r2) (simp_all add: stop_loop_append)
  have rest: "stop_loop now sch [Suc i..<?n] (dl2, w2) = (Inr dl, w')"
    using whole l1 r1 it r2 by (simp add: stop_loop_append)
  have len1: "length (daemons w1) = ?n"
    using stop_loop_length [of now sch "[0..<i]" "([], w)"] l1 by simp
  have len2: "length (daemons w2) = ?n"
    using stop_iteration_length [of now sch i "(dl1, w1)"] it len1 by simp
  have after: "daemons w' ! i = daemons w2 ! i"
    using stop_loop_other [of i "[Suc i..<?n]" w2 now sch dl2] rest len2 i u by simp
  obtain k1 d1 where e1: "daemons w1 ! i = (k1, d1)"
    by fastforce
  obtain b t p where t1: "deletion_timings (handler d1) = Inr (b, t, p)"
    using stop_iteration_returns [of now sch i dl1 w1 dl2 w2] it r2 e1 by auto
  have u2: "\<not> finished (task (snd (daemons (snd (stop_iteration now sch i (dl1, w1))) ! i)))"
    using u after it by simp
  have i1: "i < length (daemons w1)"
    using i len1 by simp
  note same = stop_iteration_same [OF i1 e1 t1 u2]
  have before: "daemons w1 ! i = daemons w ! i"
    using stop_loop_other [of i "[0..<i]" w now sch "[]"] l1 i e1 same(2) by simp
  with e e1 have kd: "k1 = k" "d1 = d"
    by simp_all
  show "\<exists>b t p. deletion_timings (handler d) = Inr (b, t, p) \<and>
           daemons w' ! i =
             (k, fst (escalate now k (now - or_else (when_set (stopper d)) now) b t p
                        (deletion_seen now d)))"
    using same(1) t1 kd after it by auto
  show "\<not> finished (task d)"
    using same(2) kd by simp
qed

text \<open>
  Claim C8. Two consecutive calls of stop-for-deletion that both return, on any daemon
  table: for a daemon handler with a backoff configured, not yet flagged
  \<open>DAEMON_SIGNALLED\<close>, whose age is below the backoff in both calls and whose task is
  unfinished throughout (it is still unfinished after the second call), the first call
  sets \<open>DAEMON_SIGNALLED\<close> and appends the debug record, and the second call leaves the
  daemon record exactly as it was: the debug record is logged once in total.
\<close>

theorem signalled_once_in_graceful_window:
  assumes "stop_resource_daemons now1 sch1 w = (Inr dl1, w1)"
    and "stop_resource_daemons now2 sch2 w1 = (Inr dl2, w2)"
    and "i < length (daemons w)"
    and "daemons w ! i = (k, d)"
    and "handler d = ResourceDaemonHandler hid initial_delay (Some backoff) timeout polling"
    and "DAEMON_SIGNALLED \<notin> reasons (stopper d)"
    and "now1 - or_else (when_set (stopper d)) now1 < backoff"
    and "daemons w1 ! i = (k1, d1)"
    and "now2 - or_else (when_set (stopper d1)) now2 < backoff"
    and "daemons w2 ! i = (k2, d2)"
    and "\<not> finished (task d2)"
  shows "logger d1 = logger d @ [Debug (SignalledGracefully k)]
       \<and> DAEMON_SIGNALLED \<in> reasons (stopper d1)
       \<and> d2 = d1
       \<and> length (filter (\<lambda>l. l = Debug (SignalledGracefully k)) (logger d2))
           = Suc (length (filter (\<lambda>l. l = Debug (SignalledGracefully k)) (logger d)))"
proof -
  have t: "deletion_timings (handler d) =
      Inr (Some backoff, timeout, or_else polling DAEMON_POLLING_INTERVAL)"
    using assms(5) by simp
  have len: "length (daemons w1) = length (daemons w)"
    using assms(1) stop_loop_length [of now1 sch1 "[0..<length (daemons w)]" "([], w)"]
    by (simp add: stop_resource_daemons_def)
  have i1: "i < length (daemons w1)"
    using assms(3) len by simp
  have u2: "\<not> finished (task (snd (daemons w2 ! i)))"
    using assms(10,11) by simp
  note second = stop_call_unfinished [OF assms(2) i1 assms(8) u2]
  have u1: "\<not> finished (task (snd (daemons w1 ! i)))"
    using second(2) assms(8) by simp
  note first = stop_call_unfinished [OF assms(1,3,4) u1]
  have d1: "d1 = (deletion_seen now1 d)
      \<lparr>stopper := stopper_set DAEMON_SIGNALLED now1 (stopper (deletion_seen now1 d)),
       logger := logger d @ [Debug (SignalledGracefully k)]\<rparr>"
    and k1: "k1 = k"
    using first t assms(6,7,8)
    by (auto simp add: escalate_def is_set_reason_def deletion_seen_def stopper_set_def)
  have h1: "handler d1 = handler d"
    by (simp add: d1 deletion_seen_def)
  have seen: "deletion_seen now2 d1 = d1"
    by (cases "when_set (stopper d)")
      (simp_all add: d1 deletion_seen_def stopper_set_def insert_commute)
  have d2: "d2 = d1"
    using second(1) t h1 assms(9,10) seen second(2)
    by (auto simp add: escalate_def is_set_reason_def d1 stopper_set_def)
  show ?thesis
    using d2 by (simp add: d1 stopper_set_def)
qed


lemmas call_defs = stop_resource_daemons_def stop_iteration_def on_daemon_def sleep0_def
  yield_one_def escalate_def or_else_def stopper_set_def is_set_reason_def deletion_seen_def
  DAEMON_POLLING_INTERVAL_def world_of_def daemon_of_def fresh_task_def stuck_def
  new_stopper_def

lemma S2_first_call:
  "stop_resource_daemons 100 stuck (world_of (daemon_of S2_handler new_stopper)) =
     (Inr [5],
      world_of ((daemon_of S2_handler
          \<lparr>reasons = {DAEMON_SIGNALLED, RESOURCE_DELETED}, when_set = Some 100\<rparr>)
        \<lparr>logger := [Debug (SignalledGracefully ''d'')]\<rparr>))"
  by (simp add: call_defs S2_handler_def)

lemma S2_second_call:
  "stop_resource_daemons 102 stuck
     (world_of ((daemon_of S2_handler
          \<lparr>reasons = {DAEMON_SIGNALLED, RESOURCE_DELETED}, when_set = Some 100\<rparr>)
        \<lparr>logger := [Debug (SignalledGracefully ''d'')]\<rparr>)) =
     (Inr [3],
      world_of ((daemon_of S2_handler
          \<lparr>reasons = {DAEMON_SIGNALLED, RESOURCE_DELETED}, when_set = Some 100\<rparr>)
        \<lparr>logger := [Debug (SignalledGracefully ''d'')]\<rparr>))"
  by (simp add: call_defs S2_handler_def insert_commute)

theorem signalled_once_in_graceful_window_witness:
  "length (filter (\<lambda>l. l = Debug (SignalledGracefully ''d''))
     (logger (snd (daemons (snd (stop_resource_daemons 102 stuck
        (snd (stop_resource_daemons 100 stuck
           (world_of (daemon_of S2_handler new_stopper)))))) ! 0)))) = 1"
proof -
  let ?d1 = "(daemon_of S2_handler
          \<lparr>reasons = {DAEMON_SIGNALLED, RESOURCE_DELETED}, when_set = Some 100\<rparr>)
        \<lparr>logger := [Debug (SignalledGracefully ''d'')]\<rparr>"
  show ?thesis
    unfolding S2_first_call S2_second_call snd_conv
    using signalled_once_in_graceful_window [OF S2_first_call S2_second_call,
        where i = 0 and k = "''d''" and d = "daemon_of S2_handler new_stopper"
          and hid = "''d''" and initial_delay = None and backoff = 5 and timeout = "Some 10"
          and polling = None and ?k1.0 = "''d''" and ?d1.0 = ?d1 and ?k2.0 = "''d''"
          and ?d2.0 = ?d1]
    by (simp add: world_of_def daemon_of_def S2_handler_def
        new_stopper_def or_else_def fresh_task_def)
qed








section \<open>Properties of \<^verbatim>\<open>spawn_resource_daemons\<close>\<close>


lemma spawn_loop_noop:
  "handler_id ` set hs \<subseteq> fst ` set (daemons w) \<Longrightarrow> spawn_loop body memo hs w = w"
  by (induction hs arbitrary: w) simp_all

lemma spawn_loop_keys:
  "fst ` set (daemons (spawn_loop body memo hs w)) = fst ` set (daemons w) \<union> handler_id ` set hs"
proof (induction hs arbitrary: w)
  case Nil
  show ?case by simp
next
  case (Cons h hs)
  show ?case
    by (simp add: Cons.IH Let_def) auto
qed

lemma spawn_loop_extends:
  "\<exists>new. daemons (spawn_loop body memo hs w) = daemons w @ new"
proof (induction hs arbitrary: w)
  case Nil
  show ?case by simp
next
  case (Cons h hs)
  show ?case
  proof (cases "handler_id h \<in> fst ` set (daemons w)")
    case True
    then show ?thesis using Cons.IH [of w] by simp
  next
    case False
    let ?w = "w\<lparr>daemons := daemons w @ [(handler_id h,
          \<lparr>stopper = new_stopper, handler = h, logger = [], task = fresh_task\<rparr>)],
        runners := runners w @ [(handler_id h,
          \<lparr>cause_body = body, cause_memo = memo, cause_patch = [],
           cause_stopper = new_stopper\<rparr>)]\<rparr>"
    from Cons.IH [of ?w] obtain new where "daemons (spawn_loop body memo hs ?w) = daemons ?w @ new"
      by blast
    with False show ?thesis by (simp add: Let_def)
  qed
qed

text \<open>
  Claim C4. When the memory holds a body at both calls, two calls of spawn with the same
  handler sequence both return an empty list of delays, and the second call leaves the
  world exactly as the first call left it: the same daemon table and no further runner
  task. The records that were in the table before the first call are untouched.
\<close>

theorem spawn_is_idempotent:
  assumes "live_fresh_body memory = Some body"
    and "live_fresh_body memory' = Some body'"
    and "spawn_resource_daemons handlers memory w = (r1, w1)"
    and "spawn_resource_daemons handlers memory' w1 = (r2, w2)"
  shows "r1 = Inr [] \<and> r2 = Inr [] \<and> w2 = w1
       \<and> daemons w2 = daemons w1 \<and> runners w2 = runners w1
       \<and> take (length (daemons w)) (daemons w1) = daemons w"
proof -
  have w1: "w1 = spawn_loop body (user_data memory) handlers w" and r1: "r1 = Inr []"
    using assms(1,3) by (simp_all add: spawn_resource_daemons_def)
  have "handler_id ` set handlers \<subseteq> fst ` set (daemons w1)"
    unfolding w1 spawn_loop_keys by blast
  then have noop: "spawn_loop body' (user_data memory') handlers w1 = w1"
    by (rule spawn_loop_noop)
  have w2: "w2 = w1" and r2: "r2 = Inr []"
    using assms(2,4) noop by (simp_all add: spawn_resource_daemons_def)
  obtain new where "daemons w1 = daemons w @ new"
    unfolding w1 using spawn_loop_extends by blast
  then have "take (length (daemons w)) (daemons w1) = daemons w"
    by simp
  with r1 r2 w2 show ?thesis by simp
qed

lemma spawn_two_handlers:
  "spawn_resource_daemons [S2_handler, timer_handler] seen_memory empty_world =
    (Inr [],
     \<lparr>daemons = [(''d'', daemon_of S2_handler new_stopper), (''t'', daemon_of timer_handler new_stopper)],
      resource_warnings = [],
      runners = [(''d'', \<lparr>cause_body = ''body'', cause_memo = ''memo'', cause_patch = [], cause_stopper = new_stopper\<rparr>),
                 (''t'', \<lparr>cause_body = ''body'', cause_memo = ''memo'', cause_patch = [], cause_stopper = new_stopper\<rparr>)]\<rparr>)"
  by (simp add: spawn_resource_daemons_def seen_memory_def empty_world_def S2_handler_def
      timer_handler_def daemon_of_def Let_def)

theorem spawn_is_idempotent_witness:
  "length (runners (snd (spawn_resource_daemons [S2_handler, timer_handler] seen_memory
      (snd (spawn_resource_daemons [S2_handler, timer_handler] seen_memory empty_world))))) = 2
   \<and> map fst (daemons (snd (spawn_resource_daemons [S2_handler, timer_handler] seen_memory
      (snd (spawn_resource_daemons [S2_handler, timer_handler] seen_memory empty_world)))))
      = [''d'', ''t'']"
proof -
  have b: "live_fresh_body seen_memory = Some ''body''"
    by (simp add: seen_memory_def)
  show ?thesis
    using spawn_is_idempotent [OF b b surjective_pairing surjective_pairing,
        where handlers = "[S2_handler, timer_handler]" and w = empty_world]
    by (simp add: spawn_two_handlers)
qed

text \<open>
  Claim C5. When \<^verbatim>\<open>memory.live_fresh_body\<close> is \<^verbatim>\<open>None\<close>, spawn raises the
  \<^verbatim>\<open>RuntimeError\<close> of line 60 to its caller and the world is unchanged: no stopper, no
  runner task and no daemon record has been created.
\<close>

theorem spawn_without_body_fails:
  assumes "live_fresh_body memory = None"
  shows "spawn_resource_daemons handlers memory w =
     (Inl (RuntimeError ''A daemon is spawned with None as body. This is a bug. Please report.''), w)"
  using assms by (simp add: spawn_resource_daemons_def)

theorem spawn_without_body_fails_witness:
  "snd (spawn_resource_daemons [S2_handler, timer_handler] unseen_memory empty_world) = empty_world
   \<and> isl (fst (spawn_resource_daemons [S2_handler, timer_handler] unseen_memory empty_world))"
proof -
  have b: "live_fresh_body unseen_memory = None"
    by (simp add: unseen_memory_def)
  show ?thesis
    using spawn_without_body_fails [OF b, of "[S2_handler, timer_handler]" empty_world]
    by simp
qed


section \<open>Properties of \<^verbatim>\<open>stop_daemon\<close>\<close>


text \<open>
  Claim C10. On operator exit, a daemon whose handler gives neither a backoff nor a
  timeout (every timer handler, and a daemon handler with both unset), and whose task is
  not finished after the one scheduler tick that follows \<open>OPERATOR_EXITING\<close>, is abandoned
  at once: the stopper gets \<open>OPERATOR_EXITING\<close> and \<open>DAEMON_ABANDONED\<close>, the warning is
  logged and the resource warning is emitted, and the task handle is unchanged, so the
  task was neither awaited nor cancelled.
\<close>

theorem stop_daemon_without_deadlines:
  assumes "exit_timings (handler d) = Inr (None, None)"
    and "\<not> finished (task d)"
    and "\<not> on_yield sch k (d\<lparr>stopper := stopper_set OPERATOR_EXITING now (stopper d)\<rparr>)"
  shows "stop_daemon now sch k (d, warns) =
      (Inr (),
       (d\<lparr>stopper := stopper_set DAEMON_ABANDONED now
                       (stopper_set OPERATOR_EXITING now (stopper d)),
          logger := logger d @ [Warning (DidNotExitInTime k)]\<rparr>,
        warns @ [k]))
    \<and> exit_timings (ResourceTimerHandler hid initial_delay interval idle sharp) = Inr (None, None)
    \<and> exit_timings (ResourceDaemonHandler hid initial_delay None None polling) = Inr (None, None)"
  using assms by (simp add: stop_daemon_def yield_one_def Let_def)

theorem stop_daemon_without_deadlines_witness:
  "stop_daemon 7 stuck ''t'' (daemon_of timer_handler new_stopper, []) =
     (Inr (),
      ((daemon_of timer_handler
          \<lparr>reasons = {DAEMON_ABANDONED, OPERATOR_EXITING}, when_set = Some 7\<rparr>)
         \<lparr>logger := [Warning (DidNotExitInTime ''t'')]\<rparr>,
       [''t'']))
   \<and> awaited (task (fst (snd (stop_daemon 7 stuck ''t'' (daemon_of timer_handler new_stopper, []))))) = []
   \<and> cancel_calls (task (fst (snd (stop_daemon 7 stuck ''t'' (daemon_of timer_handler new_stopper, []))))) = 0"
proof -
  have t: "exit_timings (handler (daemon_of timer_handler new_stopper)) = Inr (None, None)"
    by (simp add: daemon_of_def timer_handler_def)
  have u: "\<not> finished (task (daemon_of timer_handler new_stopper))"
    by (simp add: daemon_of_def fresh_task_def)
  have n: "\<not> on_yield stuck k d" for k d
    by (simp add: stuck_def)
  show ?thesis
    using stop_daemon_without_deadlines [OF t u n, of 7 "''t''" "[]"]
    by (simp add: daemon_of_def stopper_set_def new_stopper_def fresh_task_def)
qed

text \<open>With deadlines, the same task is signalled, awaited, cancelled and awaited again.\<close>

lemma stop_daemon_with_deadlines:
  "awaited (task (fst (snd (stop_daemon 7 stuck ''d'' (daemon_of S2_handler new_stopper, []))))) = [5, 10]
   \<and> cancel_calls (task (fst (snd (stop_daemon 7 stuck ''d'' (daemon_of S2_handler new_stopper, []))))) = 1"
  by (simp add: stop_daemon_def yield_one_def wait_task_def Let_def daemon_of_def S2_handler_def
      stuck_def fresh_task_def)


section \<open>Properties of the runner\<close>

lemmas runner_defs = runner_def runner_body_def resource_timer_def resource_daemon_def
  initial_sleep_def schedule_next_def then_continue_def py_mod_def flush_patch_def
  execute_handlers_once_def sleep_or_wait_def suspend_def observe_def with_outcomes_def
  from_scratch_def is_set_def stopper_set_def new_stopper_def

lemmas scenario_defs = deleted_at_def at_instant_def two_seconds_def sharp_timer_def
  plain_timer_def zero_timer_def idle_timer_def undisturbed_def failing_patch_def
  refusing_patches_def

subsection \<open>Runs of the scenarios\<close>


text \<open>The same timer, not sharp, fires at 0, 7 and 14.\<close>

lemma plain_timer_run:
  "runner 10 (deleted_at 16) plain_timer (at_instant 0) =
     Some (Inr (),
       \<lparr>clock = 16, r_stopper = \<lparr>reasons = {DONE, RESOURCE_DELETED}, when_set = Some 16\<rparr>,
        idle_reset_time = 0, invoked = [0, 7, 14], slept = [[5], [5], [5]], patches = 0,
        r_logger = []\<rparr>)"
  by (simp add: runner_defs scenario_defs eval_nat_numeral Let_def)





subsection \<open>The common exit contract\<close>



subsection \<open>Sharp timers\<close>






subsection \<open>Stopping a timer\<close>

text \<open>Once the stopper is set, the main loop and the idle gate of line 381 return at once.\<close>

lemma timer_loop_stopped:
  "is_set (r_stopper s) \<Longrightarrow> timer_loop (Suc n) env interval idle sharp st s = Some (Inr (), s)"
  by simp

lemma idle_gate_stopped:
  "is_set (r_stopper s) \<Longrightarrow> idle_gate (Suc n) env idle s = Some (Inr (), s)"
  by simp

text \<open>
  The wait of lines 429-430 has no such check: while \<^verbatim>\<open>memory.idle_reset_time\<close> does not
  pass \<open>started\<close> and the task is not cancelled, it does not return, with any fuel, whether
  the stopper is set or not.
\<close>

lemma idle_wait_spins:
  assumes "cancel_at env = None"
    and "\<forall>t. idle_reset env t \<le> started"
    and "idle_reset_time s \<le> started"
  shows "idle_wait n env idle started s = None"
  using assms(3)
proof (induction n arbitrary: s)
  case 0
  show ?case by simp
next
  case (Suc n)
  obtain s1 where sl: "sleep_or_wait env [idle] s = (Inr (), s1)"
    and ir: "idle_reset_time s1 \<le> started"
    using assms(1,2)
    by (simp add: sleep_or_wait_def suspend_def observe_def Let_def)
  show ?case
    using Suc.prems sl Suc.IH [OF ir] by simp
qed

lemma deleted_at_fields:
  "stop_at (deleted_at t) = Some (t, RESOURCE_DELETED)"
  "idle_reset (deleted_at t) = (\<lambda>t. 0)"
  "cancel_at (deleted_at t) = None"
  "invocations (deleted_at t) = (\<lambda>k. two_seconds)"
  by (simp_all add: deleted_at_def)

text \<open>
  Claim C9 fails on the code. An idle-only timer (idle 3 seconds, no interval) fires at 5
  and succeeds at 7; \<open>RESOURCE_DELETED\<close> is set at 8, during the wait for the next change of
  the resource, and \<^verbatim>\<open>memory.idle_reset_time\<close> stays at 0. The runner never returns, with
  any fuel: the loop of lines 429-430 goes on, each \<^verbatim>\<open>sleep_or_wait\<close> returning at once.
\<close>

theorem idle_timer_never_stops:
  "runner n (deleted_at 8) idle_timer (at_instant 5) = None"
proof (cases n)
  case 0
  then show ?thesis
    by (simp add: runner_def runner_body_def resource_timer_def idle_timer_def initial_sleep_def)
next
  case (Suc m)
  have spin: "idle_wait j (deleted_at 8) 3 5 s = None" if "idle_reset_time s \<le> 5" for s j
    using that by (intro idle_wait_spins) (simp_all add: deleted_at_fields)
  show ?thesis
  proof (cases m)
    case 0
    with Suc show ?thesis
      by (simp add: runner_defs idle_timer_def at_instant_def)
  next
    case (Suc k)
    show ?thesis
      unfolding \<open>n = Suc m\<close>
      using Suc
      by (simp add: runner_defs deleted_at_fields at_instant_def two_seconds_def idle_timer_def
          spin del: idle_wait.simps)
  qed
qed

end
